theory Spec2Isabelle
  imports Main "HOL-Library.Word"
begin

unbundle bit_operations_syntax

section \<open>Buffers, byte order and errors\<close>

text \<open>
  A frame body is the byte sequence behind \<^verbatim>\<open>payload()\<close>; its length is
  \<^verbatim>\<open>length()\<close>. Pointers into the body are offsets from \<^verbatim>\<open>payload()\<close>.
  Sizes are \<^verbatim>\<open>size_t\<close>; every size computed here is a sum of at most three
  16-bit values and a few small constants, far below the range of \<^verbatim>\<open>size_t\<close>,
  so they are natural numbers.
\<close>

type_synonym byte = "8 word"
type_synonym uint16_t = "16 word"
type_synonym uint32_t = "32 word"

text \<open>\<^verbatim>\<open>sequence_number_type\<close> is read with \<^verbatim>\<open>ntohl\<close>: a 32-bit unsigned value.\<close>

type_synonym sequence_number_type = uint32_t

text \<open>
  The failure kinds of the framing layer; an exception of the code is a value here.
  \<open>OutOfBoundsRead\<close> is no exception of the code: it marks a load outside the
  buffer, which the code performs unchecked and without noticing.
\<close>

datatype error =
    FormatError
  | AuthenticationError
  | CryptoOperationError
  | CapacityError
  | MalformedAuxData
  | AlgorithmUnavailable
  | OutOfBoundsRead

text \<open>The byte order of the machine the code runs on.\<close>

datatype endianness = LittleEndian | BigEndian

definition sizeof_uint16_t :: nat where
  "sizeof_uint16_t = 2"

definition sizeof_sequence_number_type :: nat where
  "sizeof_sequence_number_type = 4"

text \<open>The 16-bit and 32-bit values whose most significant byte is the first argument.\<close>

definition cat16 :: "byte \<Rightarrow> byte \<Rightarrow> uint16_t" where
  "cat16 b1 b0 = push_bit 8 (ucast b1) OR ucast b0"

definition cat32 :: "byte \<Rightarrow> byte \<Rightarrow> byte \<Rightarrow> byte \<Rightarrow> uint32_t" where
  "cat32 b3 b2 b1 b0 =
     push_bit 24 (ucast b3) OR push_bit 16 (ucast b2) OR push_bit 8 (ucast b1) OR ucast b0"

text \<open>
  \<^verbatim>\<open>buffer_tools::get<T>(buf, offset)\<close> loads a \<^verbatim>\<open>T\<close> from the bytes at
  \<^verbatim>\<open>offset\<close> in the byte order of the host. The load itself is unchecked in the
  code; here a load that leaves the buffer is \<open>None\<close>, so that every read outside
  the buffer is visible.
\<close>

definition get_uint16 :: "endianness \<Rightarrow> byte list \<Rightarrow> nat \<Rightarrow> uint16_t option" where
  "get_uint16 e buf off =
     (if off + 2 \<le> length buf then
        Some (case e of
                BigEndian \<Rightarrow> cat16 (buf ! off) (buf ! (off + 1))
              | LittleEndian \<Rightarrow> cat16 (buf ! (off + 1)) (buf ! off))
      else None)"

definition get_uint32 :: "endianness \<Rightarrow> byte list \<Rightarrow> nat \<Rightarrow> uint32_t option" where
  "get_uint32 e buf off =
     (if off + 4 \<le> length buf then
        Some (case e of
                BigEndian \<Rightarrow>
                  cat32 (buf ! off) (buf ! (off + 1)) (buf ! (off + 2)) (buf ! (off + 3))
              | LittleEndian \<Rightarrow>
                  cat32 (buf ! (off + 3)) (buf ! (off + 2)) (buf ! (off + 1)) (buf ! off))
      else None)"

text \<open>
  \<^verbatim>\<open>ntohs\<close> and \<^verbatim>\<open>ntohl\<close>: the identity on a big-endian host, the byte swap
  on a little-endian one.
\<close>

definition ntohs :: "endianness \<Rightarrow> uint16_t \<Rightarrow> uint16_t" where
  "ntohs e w =
     (case e of
        BigEndian \<Rightarrow> w
      | LittleEndian \<Rightarrow> cat16 (ucast w) (ucast (drop_bit 8 w)))"

definition ntohl :: "endianness \<Rightarrow> uint32_t \<Rightarrow> uint32_t" where
  "ntohl e w =
     (case e of
        BigEndian \<Rightarrow> w
      | LittleEndian \<Rightarrow>
          cat32 (ucast w) (ucast (drop_bit 8 w)) (ucast (drop_bit 16 w)) (ucast (drop_bit 24 w)))"

section \<open>The field accessors of \<^verbatim>\<open>data_message\<close>\<close>

text \<open>
  \<^verbatim>\<open>MIN_BODY_LENGTH = sizeof(sequence_number_type) + sizeof(uint16_t) * 2\<close>.
\<close>

definition MIN_BODY_LENGTH :: nat where
  "MIN_BODY_LENGTH = sizeof_sequence_number_type + sizeof_uint16_t * 2"

text \<open>
  The accessors, argument by argument as in the header. An accessor that returns a
  pointer returns the offset of that pointer from \<^verbatim>\<open>payload()\<close>. An accessor is
  \<open>None\<close> when one of the loads it performs leaves the buffer.
\<close>

definition sequence_number :: "endianness \<Rightarrow> byte list \<Rightarrow> sequence_number_type option" where
  "sequence_number e p = map_option (ntohl e) (get_uint32 e p 0)"

definition iv :: "byte list \<Rightarrow> nat" where
  "iv p = sizeof_uint16_t + sizeof_sequence_number_type"

definition iv_size :: "endianness \<Rightarrow> byte list \<Rightarrow> nat option" where
  "iv_size e p =
     map_option (\<lambda>w. unat (ntohs e w)) (get_uint16 e p sizeof_sequence_number_type)"

definition ciphertext :: "endianness \<Rightarrow> byte list \<Rightarrow> nat option" where
  "ciphertext e p =
     (case iv_size e p of
        None \<Rightarrow> None
      | Some ivl \<Rightarrow>
          Some (sizeof_uint16_t + sizeof_sequence_number_type + ivl + sizeof_uint16_t))"

definition ciphertext_size :: "endianness \<Rightarrow> byte list \<Rightarrow> nat option" where
  "ciphertext_size e p =
     (case iv_size e p of
        None \<Rightarrow> None
      | Some ivl \<Rightarrow>
          map_option (\<lambda>w. unat (ntohs e w))
            (get_uint16 e p (sizeof_sequence_number_type + sizeof_uint16_t + ivl)))"

definition hmac :: "endianness \<Rightarrow> byte list \<Rightarrow> nat option" where
  "hmac e p =
     (case iv_size e p of
        None \<Rightarrow> None
      | Some ivl \<Rightarrow>
          (case ciphertext_size e p of
             None \<Rightarrow> None
           | Some ctl \<Rightarrow>
               Some (sizeof_sequence_number_type + sizeof_uint16_t + ivl + sizeof_uint16_t
                     + ctl + sizeof_uint16_t)))"

definition hmac_size :: "endianness \<Rightarrow> byte list \<Rightarrow> nat option" where
  "hmac_size e p =
     (case iv_size e p of
        None \<Rightarrow> None
      | Some ivl \<Rightarrow>
          (case ciphertext_size e p of
             None \<Rightarrow> None
           | Some ctl \<Rightarrow>
               map_option (\<lambda>w. unat (ntohs e w))
                 (get_uint16 e p
                    (sizeof_sequence_number_type + sizeof_uint16_t + ivl + sizeof_uint16_t
                     + ctl))))"

text \<open>
  The wire layout in the words of the specification: the big-endian integer that two,
  respectively four, bytes at an offset denote.
\<close>

definition be16_at :: "byte list \<Rightarrow> nat \<Rightarrow> nat option" where
  "be16_at buf off =
     (if off + 2 \<le> length buf
      then Some (256 * unat (buf ! off) + unat (buf ! (off + 1)))
      else None)"

definition be32_at :: "byte list \<Rightarrow> nat \<Rightarrow> nat option" where
  "be32_at buf off =
     (if off + 4 \<le> length buf
      then Some (16777216 * unat (buf ! off) + 65536 * unat (buf ! (off + 1))
                 + 256 * unat (buf ! (off + 2)) + unat (buf ! (off + 3)))
      else None)"

section \<open>Construction of a \<^verbatim>\<open>data_message\<close>\<close>

text \<open>
  Modelled from the spec: the body of \<^verbatim>\<open>check_format\<close> and of the constructor
  \<^verbatim>\<open>data_message(buf, buf_len)\<close>; the header declares both, their bodies are not
  among the sources. Section 4.2: construction performs \<^verbatim>\<open>check_format\<close>,
  "validating, in field order: buffer is at least the minimum body length; each of iv,
  ciphertext, hmac fits entirely within the remaining buffer given its declared length",
  and "fails with a format error on any violation". Section 3: "every declared length
  field, read in order, must leave enough remaining buffer for the bytes it claims".
  The minimum body length is the constant of the header, and the start and the declared
  length of each field are what the accessors of the header compute. The accessors load
  unchecked: where the check asks for a declared length whose bytes are not in the buffer,
  the accessor loads outside the buffer, and the outcome is \<open>OutOfBoundsRead\<close>.
\<close>

definition field_fits :: "byte list \<Rightarrow> nat option \<Rightarrow> nat option \<Rightarrow> bool" where
  "field_fits p start len =
     (case start of
        None \<Rightarrow> False
      | Some s \<Rightarrow> (case len of None \<Rightarrow> False | Some n \<Rightarrow> s + n \<le> length p))"

definition check_format :: "endianness \<Rightarrow> byte list \<Rightarrow> error + unit" where
  "check_format e p =
     (if length p < MIN_BODY_LENGTH then Inl FormatError
      else if iv_size e p = None then Inl OutOfBoundsRead
      else if \<not> field_fits p (Some (iv p)) (iv_size e p) then Inl FormatError
      else if ciphertext_size e p = None then Inl OutOfBoundsRead
      else if \<not> field_fits p (ciphertext e p) (ciphertext_size e p) then Inl FormatError
      else if hmac_size e p = None then Inl OutOfBoundsRead
      else if \<not> field_fits p (hmac e p) (hmac_size e p) then Inl FormatError
      else Inr ())"

definition data_message :: "endianness \<Rightarrow> byte list \<Rightarrow> error + byte list" where
  "data_message e buf =
     (case check_format e buf of Inl err \<Rightarrow> Inl err | Inr _ \<Rightarrow> Inr buf)"

section \<open>The crypto primitive provider\<close>

text \<open>
  The cipher, the keyed digest and the random source are external collaborators
  (section 6 of the specification: "cipher encrypt/decrypt by algorithm+key+iv, keyed
  digest/MAC compute by algorithm, digest-size query, secure random bytes"). They are
  parameters of the model: a record of the functions the framing layer calls. A cipher
  operation that fails (unsupported algorithm, key-length mismatch, primitive failure)
  returns \<open>None\<close>.
\<close>

type_synonym calg_t = nat
type_synonym mdalg_t = nat

record crypto_provider =
  cipher_iv_length :: "calg_t \<Rightarrow> nat"
  cipher_cleartext_bound :: "calg_t \<Rightarrow> nat \<Rightarrow> nat"
  cipher_encrypt :: "calg_t \<Rightarrow> byte list \<Rightarrow> byte list \<Rightarrow> byte list \<Rightarrow> byte list option"
  cipher_decrypt :: "calg_t \<Rightarrow> byte list \<Rightarrow> byte list \<Rightarrow> byte list \<Rightarrow> byte list option"
  hmac_compute :: "mdalg_t \<Rightarrow> byte list \<Rightarrow> byte list \<Rightarrow> byte list"

section \<open>Vectors and destination buffers\<close>

text \<open>
  \<^verbatim>\<open>std::vector<T> result(n)\<close> holds \<open>n\<close> value-initialised elements;
  \<^verbatim>\<open>resize(n)\<close> truncates or appends value-initialised elements. A callee that is
  given \<^verbatim>\<open>&result[0]\<close> overwrites elements from the front and cannot change the
  size of the vector.
\<close>

definition vector_of_size :: "nat \<Rightarrow> byte list" where
  "vector_of_size n = replicate n 0"

definition resize :: "nat \<Rightarrow> byte list \<Rightarrow> byte list" where
  "resize n v = take n v @ replicate (n - length v) 0"

definition store_front :: "byte list \<Rightarrow> byte list \<Rightarrow> byte list" where
  "store_front v out = take (length v) out @ drop (length out) v"

section \<open>The writer\<close>

text \<open>Integers in network byte order, as \<^verbatim>\<open>htons\<close> and \<^verbatim>\<open>htonl\<close> store them.\<close>

definition u16_bytes :: "uint16_t \<Rightarrow> byte list" where
  "u16_bytes w = [ucast (drop_bit 8 w), ucast w]"

definition u32_bytes :: "uint32_t \<Rightarrow> byte list" where
  "u32_bytes w = [ucast (drop_bit 24 w), ucast (drop_bit 16 w), ucast (drop_bit 8 w), ucast w]"

text \<open>A length is stored in a 16-bit field: the conversion to \<^verbatim>\<open>uint16_t\<close> wraps.\<close>

definition len16 :: "nat \<Rightarrow> byte list" where
  "len16 n = u16_bytes (word_of_nat n)"

text \<open>
  Modelled from the spec: the bodies of \<^verbatim>\<open>raw_write\<close> and \<^verbatim>\<open>write\<close>, which the
  header only declares. Section 4.1: the writer "builds the subtype's plaintext (Data:
  channel_number || cleartext ...), encrypts it with a freshly generated IV sized per
  cipher algorithm, then writes sequence_number || iv_len || iv || ciphertext_len ||
  ciphertext. If digest_alg is present, computes a tag over iv_len..ciphertext_end using
  seal_key, truncates/expands to hmac_len bytes, and appends hmac_len || hmac; if absent,
  appends hmac_len = 0. Supports a size-query mode: calling with no destination buffer
  returns the exact byte count without writing ... Fails with a capacity error if a
  supplied destination buffer is smaller than the computed size - never partially
  writes." The destination is \<open>None\<close> for no buffer and \<open>Some cap\<close> for a buffer of
  \<open>cap\<close> bytes; the result is the count and the bytes written. The computed size is
  the length of the frame that the inputs produce; a failure of the cipher is the
  crypto-operation error of section 7. The random source is the argument \<open>rnd\<close>. The outer envelope (type tag and length) is outside the model,
  so the \<^verbatim>\<open>message_type\<close> argument of \<^verbatim>\<open>raw_write\<close> has no counterpart.
  \<^verbatim>\<open>write\<close> is \<open>write_data_message\<close> here.
\<close>

definition fresh_iv :: "crypto_provider \<Rightarrow> calg_t \<Rightarrow> (nat \<Rightarrow> byte) \<Rightarrow> byte list" where
  "fresh_iv cp calg rnd = map rnd [0 ..< cipher_iv_length cp calg]"

definition sealed_region :: "byte list \<Rightarrow> byte list \<Rightarrow> byte list" where
  "sealed_region ivb ct = len16 (length ivb) @ ivb @ len16 (length ct) @ ct"

definition fit_tag :: "nat \<Rightarrow> byte list \<Rightarrow> byte list" where
  "fit_tag n tag = take n tag @ replicate (n - length tag) 0"

definition seal_tag :: "crypto_provider \<Rightarrow> mdalg_t option \<Rightarrow> nat \<Rightarrow> byte list \<Rightarrow> byte list \<Rightarrow> byte list" where
  "seal_tag cp md hmac_len seal_key region =
     (case md of
        None \<Rightarrow> []
      | Some alg \<Rightarrow> fit_tag hmac_len (hmac_compute cp alg seal_key region))"

definition seal :: "crypto_provider \<Rightarrow> mdalg_t option \<Rightarrow> nat \<Rightarrow> byte list \<Rightarrow> byte list \<Rightarrow> byte list" where
  "seal cp md hmac_len seal_key region =
     (case md of
        None \<Rightarrow> len16 0
      | Some alg \<Rightarrow> len16 hmac_len @ seal_tag cp md hmac_len seal_key region)"

definition raw_write ::
  "crypto_provider \<Rightarrow> nat option \<Rightarrow> sequence_number_type \<Rightarrow> calg_t \<Rightarrow> mdalg_t option \<Rightarrow> nat
     \<Rightarrow> byte list \<Rightarrow> byte list \<Rightarrow> byte list \<Rightarrow> (nat \<Rightarrow> byte) \<Rightarrow> error + nat \<times> byte list" where
  "raw_write cp buf seqno calg md hmac_len cleartext seal_key enc_key rnd =
     (let ivb = fresh_iv cp calg rnd in
      case cipher_encrypt cp calg enc_key ivb cleartext of
        None \<Rightarrow> Inl CryptoOperationError
      | Some ct \<Rightarrow>
          (let body = u32_bytes seqno @ sealed_region ivb ct
                        @ seal cp md hmac_len seal_key (sealed_region ivb ct)
           in case buf of
                None \<Rightarrow> Inr (length body, [])
              | Some cap \<Rightarrow>
                  if cap < length body then Inl CapacityError
                  else Inr (length body, body)))"

definition write_data_message ::
  "crypto_provider \<Rightarrow> nat option \<Rightarrow> uint16_t \<Rightarrow> sequence_number_type \<Rightarrow> calg_t
     \<Rightarrow> mdalg_t option \<Rightarrow> nat \<Rightarrow> byte list \<Rightarrow> byte list \<Rightarrow> byte list \<Rightarrow> (nat \<Rightarrow> byte)
     \<Rightarrow> error + nat \<times> byte list" where
  "write_data_message cp buf channel_number seqno calg md hmac_len cleartext seal_key enc_key rnd =
     raw_write cp buf seqno calg md hmac_len (u16_bytes channel_number @ cleartext)
       seal_key enc_key rnd"

section \<open>Seal verification and decryption\<close>

text \<open>The bytes of a field of a constructed message: \<open>len\<close> bytes from offset \<open>start\<close>.\<close>

definition field_bytes :: "byte list \<Rightarrow> nat option \<Rightarrow> nat option \<Rightarrow> byte list option" where
  "field_bytes p start len =
     (case start of
        None \<Rightarrow> None
      | Some s \<Rightarrow>
          (case len of
             None \<Rightarrow> None
           | Some n \<Rightarrow> if s + n \<le> length p then Some (take n (drop s p)) else None))"

text \<open>The region from the iv length field to the end of the ciphertext.\<close>

definition message_sealed_region :: "endianness \<Rightarrow> byte list \<Rightarrow> byte list option" where
  "message_sealed_region e m =
     (case iv_size e m of
        None \<Rightarrow> None
      | Some ivl \<Rightarrow>
          (case ciphertext_size e m of
             None \<Rightarrow> None
           | Some ctl \<Rightarrow>
               field_bytes m (Some sizeof_sequence_number_type)
                 (Some (sizeof_uint16_t + ivl + sizeof_uint16_t + ctl))))"

text \<open>
  Modelled from the spec: the body of \<^verbatim>\<open>check_seal\<close>, which the header only
  declares. Section 4.3: "if digest_alg is present, recomputes the tag over
  iv_len..ciphertext_end with seal_key and compares to the stored hmac bytes
  byte-for-byte; any mismatch is an authentication error. If digest_alg is absent, the
  check is skipped only when the caller's policy explicitly allows unauthenticated
  frames; otherwise it is an error."
\<close>

definition check_seal ::
  "crypto_provider \<Rightarrow> endianness \<Rightarrow> byte list \<Rightarrow> bool \<Rightarrow> mdalg_t option \<Rightarrow> nat \<Rightarrow> byte list
     \<Rightarrow> error + unit" where
  "check_seal cp e m allow_unauthenticated md hmac_len seal_key =
     (case md of
        None \<Rightarrow> if allow_unauthenticated then Inr () else Inl AuthenticationError
      | Some alg \<Rightarrow>
          (case message_sealed_region e m of
             None \<Rightarrow> Inl FormatError
           | Some region \<Rightarrow>
               (case field_bytes m (hmac e m) (hmac_size e m) of
                  None \<Rightarrow> Inl FormatError
                | Some stored \<Rightarrow>
                    if fit_tag hmac_len (hmac_compute cp alg seal_key region) = stored
                    then Inr ()
                    else Inl AuthenticationError)))"

text \<open>
  Modelled from the spec: the body of the non-template \<^verbatim>\<open>get_cleartext\<close>, which the
  header only declares. Its documentation in the header: "If buf is NULL, the function
  returns the expected size of buf", and it returns "the count of bytes deciphered".
  Section 4.4: decryption of the ciphertext with the algorithm, the key and the iv;
  errors are "reported atomically, never with partially-written output"; section 7: a
  destination buffer smaller than required is a capacity error. The destination is
  \<open>None\<close> for \<^verbatim>\<open>NULL\<close> and \<open>Some cap\<close> for a buffer of \<open>cap\<close> bytes; the result is
  the count and the bytes written.
\<close>

definition get_cleartext ::
  "crypto_provider \<Rightarrow> endianness \<Rightarrow> byte list \<Rightarrow> nat option \<Rightarrow> calg_t \<Rightarrow> byte list
     \<Rightarrow> error + nat \<times> byte list" where
  "get_cleartext cp e m buf calg enc_key =
     (case field_bytes m (Some (iv m)) (iv_size e m) of
        None \<Rightarrow> Inl FormatError
      | Some ivb \<Rightarrow>
          (case field_bytes m (ciphertext e m) (ciphertext_size e m) of
             None \<Rightarrow> Inl FormatError
           | Some ct \<Rightarrow>
               (case buf of
                  None \<Rightarrow> Inr (cipher_cleartext_bound cp calg (length ct), [])
                | Some cap \<Rightarrow>
                    (case cipher_decrypt cp calg enc_key ivb ct of
                       None \<Rightarrow> Inl CryptoOperationError
                     | Some clear \<Rightarrow>
                         if cap < length clear then Inl CapacityError
                         else Inr (length clear, clear)))))"

text \<open>
  The template overload \<^verbatim>\<open>get_cleartext<T>\<close> of the header, for a byte vector:
  \<^verbatim>\<open>
  std::vector<T> result(get_cleartext(NULL, 0, cipher_algorithm, enc_key, enc_key_len));
  result.resize(get_cleartext(&result[0], result.size(), cipher_algorithm, enc_key, enc_key_len));
  return result;
  \<close>
  An exception of either call leaves the function.
\<close>

definition get_cleartext_vector ::
  "crypto_provider \<Rightarrow> endianness \<Rightarrow> byte list \<Rightarrow> calg_t \<Rightarrow> byte list \<Rightarrow> error + byte list" where
  "get_cleartext_vector cp e m calg enc_key =
     (case get_cleartext cp e m None calg enc_key of
        Inl err \<Rightarrow> Inl err
      | Inr r1 \<Rightarrow>
          (let result = vector_of_size (fst r1) in
           case get_cleartext cp e m (Some (length result)) calg enc_key of
             Inl err \<Rightarrow> Inl err
           | Inr r2 \<Rightarrow> Inr (resize (fst r2) (store_front result (snd r2)))))"

text \<open>
  Modelled from the spec: the cleartext of a Data frame is "channel_number (2 bytes) ||
  opaque payload bytes" (section 3); this splits a decrypted cleartext accordingly.
\<close>

definition parse_data_cleartext :: "byte list \<Rightarrow> error + uint16_t \<times> byte list" where
  "parse_data_cleartext clear =
     (if length clear < sizeof_uint16_t then Inl FormatError
      else Inr (cat16 (clear ! 0) (clear ! 1), drop sizeof_uint16_t clear))"

section \<open>Auxiliary payloads\<close>

text \<open>
  Modelled from the spec: the bodies of \<^verbatim>\<open>parse_hash_list\<close> and
  \<^verbatim>\<open>parse_contact_map\<close>, which the header only declares, and the width of
  \<^verbatim>\<open>hash_type\<close>, whose declaration is not among the sources. Section 4.5: "Each
  requires the input length be an exact multiple of its fixed record size; any remainder
  is a malformed-auxiliary-data error, never silently truncated or ignored"; section 8
  takes the digest size to be 32. The width of an endpoint descriptor is not given: it is
  the argument \<open>endpoint_size\<close>. A contact map is keyed by the digest.
\<close>

definition HASH_SIZE :: nat where
  "HASH_SIZE = 32"

definition records :: "nat \<Rightarrow> byte list \<Rightarrow> byte list list" where
  "records n buf = map (\<lambda>i. take n (drop (i * n) buf)) [0 ..< length buf div n]"

definition parse_hash_list :: "byte list \<Rightarrow> error + byte list list" where
  "parse_hash_list buf =
     (if length buf mod HASH_SIZE \<noteq> 0 then Inl MalformedAuxData
      else Inr (records HASH_SIZE buf))"

definition parse_contact_map :: "nat \<Rightarrow> byte list \<Rightarrow> error + (byte list \<rightharpoonup> byte list)" where
  "parse_contact_map endpoint_size buf =
     (if length buf mod (HASH_SIZE + endpoint_size) \<noteq> 0 then Inl MalformedAuxData
      else Inr (map_of (map (\<lambda>r. (take HASH_SIZE r, drop HASH_SIZE r))
                          (records (HASH_SIZE + endpoint_size) buf))))"

section \<open>PBKDF2\<close>

text \<open>
  Modelled from the spec: the body of the non-template \<^verbatim>\<open>pbkdf2\<close>, which the header
  only declares. Its documentation in the header: "Some versions of OpenSSL only provide
  SHA1 as a hash method. In this case, PBKDF2() silently falls back to SHA1. To prevent
  this behavior, set NO_PBKDF2_FALLBACK"; it returns "the count of bytes written. Should
  be outbuflen". Section 4.3 of the specification: the weaker default is substituted
  "only when a strict-mode flag is not set; with strict mode set, unavailability is a hard
  algorithm-unavailable error rather than a silent downgrade". The flag, the set of
  digests the library provides, the SHA1 digest and the key derivation of the library are
  arguments.
\<close>

definition pbkdf2_digest :: "bool \<Rightarrow> ('md \<Rightarrow> bool) \<Rightarrow> 'md \<Rightarrow> 'md \<Rightarrow> error + 'md" where
  "pbkdf2_digest NO_PBKDF2_FALLBACK available sha1 md =
     (if available md then Inr md
      else if NO_PBKDF2_FALLBACK then Inl AlgorithmUnavailable
      else Inr sha1)"

definition pbkdf2 ::
  "bool \<Rightarrow> ('md \<Rightarrow> bool) \<Rightarrow> 'md \<Rightarrow> ('md \<Rightarrow> byte list \<Rightarrow> byte list \<Rightarrow> nat \<Rightarrow> nat \<Rightarrow> byte list)
     \<Rightarrow> byte list \<Rightarrow> byte list \<Rightarrow> nat \<Rightarrow> 'md \<Rightarrow> nat \<Rightarrow> error + nat \<times> byte list" where
  "pbkdf2 NO_PBKDF2_FALLBACK available sha1 derive password salt outbuflen md iter =
     (case pbkdf2_digest NO_PBKDF2_FALLBACK available sha1 md of
        Inl err \<Rightarrow> Inl err
      | Inr used \<Rightarrow> Inr (outbuflen, take outbuflen (derive used password salt iter outbuflen)))"

text \<open>
  The template overload \<^verbatim>\<open>pbkdf2<T>\<close> of the header, for a byte vector:
  \<^verbatim>\<open>
  std::vector<T> result(message_digest_size(md));
  pbkdf2(password, passwordlen, salt, saltlen, &result[0], result.size(), md, iter);
  return result;
  \<close>
  \<^verbatim>\<open>message_digest_size\<close> and the non-template \<^verbatim>\<open>pbkdf2\<close> it calls are arguments:
  the second takes the password, the salt, the length of the output buffer, the digest
  and the iteration count, and returns the count it reports and the bytes it wrote, or
  throws. The count is discarded.
\<close>

definition pbkdf2_vector ::
  "('md \<Rightarrow> nat) \<Rightarrow> (byte list \<Rightarrow> byte list \<Rightarrow> nat \<Rightarrow> 'md \<Rightarrow> nat \<Rightarrow> error + nat \<times> byte list)
     \<Rightarrow> byte list \<Rightarrow> byte list \<Rightarrow> 'md \<Rightarrow> nat \<Rightarrow> error + byte list" where
  "pbkdf2_vector message_digest_size pbkdf2_raw password salt md iter =
     (let result = vector_of_size (message_digest_size md) in
      case pbkdf2_raw password salt (length result) md iter of
        Inl err \<Rightarrow> Inl err
      | Inr r \<Rightarrow> Inr (store_front result (snd r)))"

section \<open>Sample inputs\<close>

text \<open>Concrete frame bodies on which the theorems below are instantiated.\<close>

definition sample_frame :: "byte list" where
  "sample_frame = [0, 0, 1, 2,  0, 2,  170, 187,  0, 3,  1, 2, 3,  0, 1,  255]"

definition zero_body_8 :: "byte list" where
  "zero_body_8 = [0, 0, 0, 0, 0, 0, 0, 0]"



text \<open>
  A toy provider: the cipher adds the first key byte to every byte, the keyed digest is
  the key followed by the length of the data.
\<close>

definition sample_provider :: crypto_provider where
  "sample_provider =
     \<lparr> cipher_iv_length = (\<lambda>alg. 2),
       cipher_cleartext_bound = (\<lambda>alg n. n + 4),
       cipher_encrypt = (\<lambda>alg key ivb clear.
          if key = [] then None else Some (map (\<lambda>b. b + hd key) clear)),
       cipher_decrypt = (\<lambda>alg key ivb ct.
          if key = [] then None else Some (map (\<lambda>b. b - hd key) ct)),
       hmac_compute = (\<lambda>alg key data. key @ [word_of_nat (length data)]) \<rparr>"

text \<open>Auxiliary payloads of 50 and of 64 bytes, and a toy key derivation.\<close>

definition sample_aux_50 :: "byte list" where
  "sample_aux_50 = map word_of_nat [0 ..< 50]"

definition sample_aux_64 :: "byte list" where
  "sample_aux_64 = map word_of_nat [0 ..< 64]"

definition sample_derive :: "nat \<Rightarrow> byte list \<Rightarrow> byte list \<Rightarrow> nat \<Rightarrow> nat \<Rightarrow> byte list" where
  "sample_derive md password salt iter n = map (\<lambda>b. b + word_of_nat md) (password @ salt)"

text \<open>A random source and the frame body that the writer produces from it.\<close>

definition sample_rnd :: "nat \<Rightarrow> byte" where
  "sample_rnd i = word_of_nat (i + 10)"

definition sample_written_frame :: "byte list" where
  "sample_written_frame =
     [0, 0, 0, 42,  0, 2,  10, 11,  0, 6,  1, 8, 81, 74, 79, 72,  0, 4,  9, 9, 12, 0]"

section \<open>Byte order lemmas\<close>

lemma byte_bit_high: "bit (b :: byte) n \<Longrightarrow> n < 8"
  using bit_imp_le_length [of b n] by simp

lemma cat16_low: "ucast (cat16 a b) = b"
  unfolding cat16_def
  by (rule bit_word_eqI) (auto simp add: bit_simps)

lemma cat16_high: "ucast (drop_bit 8 (cat16 a b)) = a"
  unfolding cat16_def
  by (rule bit_word_eqI) (auto simp add: bit_simps dest: byte_bit_high)

lemma cat32_byte0: "ucast (cat32 a b c d) = d"
  unfolding cat32_def
  by (rule bit_word_eqI) (auto simp add: bit_simps)

lemma cat32_byte1: "ucast (drop_bit 8 (cat32 a b c d)) = c"
  unfolding cat32_def
  by (rule bit_word_eqI) (auto simp add: bit_simps dest: byte_bit_high)

lemma cat32_byte2: "ucast (drop_bit 16 (cat32 a b c d)) = b"
  unfolding cat32_def
  by (rule bit_word_eqI) (auto simp add: bit_simps dest: byte_bit_high)

lemma cat32_byte3: "ucast (drop_bit 24 (cat32 a b c d)) = a"
  unfolding cat32_def
  by (rule bit_word_eqI) (auto simp add: bit_simps dest: byte_bit_high)

lemma cat16_plus: "cat16 a b = push_bit 8 (ucast a) + ucast b"
  unfolding cat16_def
  by (rule disjunctive_add [symmetric]) (auto simp add: bit_simps dest: byte_bit_high)

lemma cat32_plus:
  "cat32 a b c d =
     push_bit 24 (ucast a) + (push_bit 16 (ucast b) + (push_bit 8 (ucast c) + ucast d))"
proof -
  have 1: "push_bit 8 (ucast c) + ucast d = (push_bit 8 (ucast c) OR ucast d :: uint32_t)"
    by (rule disjunctive_add) (auto simp add: bit_simps dest: byte_bit_high)
  have 2: "push_bit 16 (ucast b) + (push_bit 8 (ucast c) OR ucast d)
             = (push_bit 16 (ucast b) OR (push_bit 8 (ucast c) OR ucast d) :: uint32_t)"
    by (rule disjunctive_add) (auto simp add: bit_simps dest: byte_bit_high)
  have 3: "push_bit 24 (ucast a) + (push_bit 16 (ucast b) OR (push_bit 8 (ucast c) OR ucast d))
             = (push_bit 24 (ucast a)
                OR (push_bit 16 (ucast b) OR (push_bit 8 (ucast c) OR ucast d)) :: uint32_t)"
    by (rule disjunctive_add) (auto simp add: bit_simps dest: byte_bit_high)
  show ?thesis
    unfolding cat32_def 1 2 3 by (simp add: ac_simps)
qed

lemma unat_byte_less: "unat (b :: byte) < 256"
  using unsigned_less [of b] by simp

lemma unat_cat16: "unat (cat16 a b) = 256 * unat a + unat b"
proof -
  have "cat16 a b = word_of_nat (256 * unat a + unat b)"
    by (simp add: cat16_plus push_bit_eq_mult)
  then have "unat (cat16 a b) = (256 * unat a + unat b) mod 65536"
    by (simp only: unat_of_nat) simp
  with unat_byte_less [of a] unat_byte_less [of b] show ?thesis
    by simp
qed

lemma unat_cat32:
  "unat (cat32 a b c d) = 16777216 * unat a + 65536 * unat b + 256 * unat c + unat d"
proof -
  have "cat32 a b c d
          = word_of_nat (16777216 * unat a + 65536 * unat b + 256 * unat c + unat d)"
    by (simp add: cat32_plus push_bit_eq_mult)
  then have "unat (cat32 a b c d)
               = (16777216 * unat a + 65536 * unat b + 256 * unat c + unat d) mod 4294967296"
    by (simp only: unat_of_nat) simp
  with unat_byte_less [of a] unat_byte_less [of b] unat_byte_less [of c] unat_byte_less [of d]
  show ?thesis
    by simp
qed

text \<open>Loading in host order and converting with \<^verbatim>\<open>ntohs\<close> decodes big-endian, on either host.\<close>

lemma ntohs_get_uint16:
  "map_option (\<lambda>w. unat (ntohs e w)) (get_uint16 e buf off) = be16_at buf off"
  by (cases e) (simp_all add: get_uint16_def ntohs_def be16_at_def cat16_low cat16_high unat_cat16)

lemma ntohl_get_uint32:
  "map_option (\<lambda>w. unat (ntohl e w)) (get_uint32 e buf off) = be32_at buf off"
  by (cases e)
    (simp_all add: get_uint32_def ntohl_def be32_at_def
       cat32_byte0 cat32_byte1 cat32_byte2 cat32_byte3 unat_cat32)

text \<open>The accessors in terms of the big-endian decoding.\<close>

lemma iv_size_be: "iv_size e p = be16_at p 4"
  by (simp add: iv_size_def sizeof_sequence_number_type_def ntohs_get_uint16)

lemma ciphertext_size_be:
  "ciphertext_size e p = (case iv_size e p of None \<Rightarrow> None | Some ivl \<Rightarrow> be16_at p (6 + ivl))"
  by (simp add: ciphertext_size_def sizeof_sequence_number_type_def sizeof_uint16_t_def
      ntohs_get_uint16 split: option.splits)

lemma hmac_size_be:
  "hmac_size e p =
     (case iv_size e p of
        None \<Rightarrow> None
      | Some ivl \<Rightarrow>
          (case ciphertext_size e p of
             None \<Rightarrow> None
           | Some ctl \<Rightarrow> be16_at p (8 + ivl + ctl)))"
  by (simp add: hmac_size_def sizeof_sequence_number_type_def sizeof_uint16_t_def
      ntohs_get_uint16 split: option.splits)

lemma sequence_number_be: "map_option unat (sequence_number e p) = be32_at p 0"
  using ntohl_get_uint32 [of e p 0]
  by (simp add: sequence_number_def option.map_comp comp_def)

section \<open>Facts about construction\<close>

lemma check_format_error:
  "check_format e p = Inl err \<Longrightarrow> err = FormatError \<or> err = OutOfBoundsRead"
  by (auto simp add: check_format_def split: if_splits)

lemma check_format_Inr_iff:
  "check_format e p = Inr () \<longleftrightarrow>
     (\<exists>ivl ctl hml.
        MIN_BODY_LENGTH \<le> length p
        \<and> iv_size e p = Some ivl \<and> ciphertext_size e p = Some ctl \<and> hmac_size e p = Some hml
        \<and> 10 + ivl + ctl + hml \<le> length p)"
  by (auto simp add: check_format_def field_fits_def iv_def ciphertext_def hmac_def
      sizeof_uint16_t_def sizeof_sequence_number_type_def split: option.splits)

lemma data_message_Inr_iff:
  "data_message e buf = Inr m \<longleftrightarrow> m = buf \<and> check_format e buf = Inr ()"
  by (auto simp add: data_message_def split: sum.splits)

lemma data_message_cases:
  "data_message e buf = Inl FormatError \<or> data_message e buf = Inl OutOfBoundsRead
   \<or> data_message e buf = Inr buf"
  by (auto simp add: data_message_def split: sum.splits dest: check_format_error)

lemma sequence_number_Some:
  "4 \<le> length p \<Longrightarrow> \<exists>sn. sequence_number e p = Some sn"
  by (simp add: sequence_number_def get_uint32_def)


text \<open>On an accepted buffer every accessor is defined and every field lies inside it.\<close>

lemma data_message_accepted_in_bounds:
  assumes "data_message e buf = Inr m"
  shows "m = buf
         \<and> (\<exists>sn ivl ctl hml c h.
               sequence_number e buf = Some sn
             \<and> iv_size e buf = Some ivl \<and> iv buf + ivl \<le> length buf
             \<and> ciphertext_size e buf = Some ctl \<and> ciphertext e buf = Some c
             \<and> c + ctl \<le> length buf
             \<and> hmac_size e buf = Some hml \<and> hmac e buf = Some h
             \<and> h + hml \<le> length buf)"
proof -
  from assms have m: "m = buf" and ok: "check_format e buf = Inr ()"
    by (simp_all add: data_message_Inr_iff)
  from ok obtain ivl ctl hml where
    len: "MIN_BODY_LENGTH \<le> length buf" and
    ivl: "iv_size e buf = Some ivl" and
    ctl: "ciphertext_size e buf = Some ctl" and
    hml: "hmac_size e buf = Some hml" and
    fit: "10 + ivl + ctl + hml \<le> length buf"
    unfolding check_format_Inr_iff by blast
  from len obtain sn where sn: "sequence_number e buf = Some sn"
    using sequence_number_Some [of buf e]
    by (auto simp add: MIN_BODY_LENGTH_def sizeof_uint16_t_def sizeof_sequence_number_type_def)
  have c: "ciphertext e buf = Some (8 + ivl)"
    using ivl by (simp add: ciphertext_def sizeof_uint16_t_def sizeof_sequence_number_type_def)
  have h: "hmac e buf = Some (10 + ivl + ctl)"
    using ivl ctl by (simp add: hmac_def sizeof_uint16_t_def sizeof_sequence_number_type_def)
  have i: "iv buf = 6"
    by (simp add: iv_def sizeof_uint16_t_def sizeof_sequence_number_type_def)
  from fit have "iv buf + ivl \<le> length buf" "8 + ivl + ctl \<le> length buf"
    "10 + ivl + ctl + hml \<le> length buf"
    by (simp_all add: i)
  with m sn ivl ctl hml c h show ?thesis
    by blast
qed
section \<open>Facts about vectors and decryption\<close>

lemma length_store_front: "length (store_front v out) = length v"
  by (simp add: store_front_def)

lemma length_resize: "length (resize n v) = n"
  by (simp add: resize_def)

lemma length_vector_of_size: "length (vector_of_size n) = n"
  by (simp add: vector_of_size_def)

lemma resize_store_front:
  "length out \<le> length v \<Longrightarrow> resize (length out) (store_front v out) = out"
  by (simp add: resize_def store_front_def)

lemma get_cleartext_query:
  "get_cleartext cp e m None calg enc_key = Inr r \<Longrightarrow> snd r = []"
  by (auto simp add: get_cleartext_def split: option.splits)

lemma get_cleartext_count:
  "get_cleartext cp e m (Some cap) calg enc_key = Inr r \<Longrightarrow>
     fst r = length (snd r) \<and> fst r \<le> cap"
  by (auto simp add: get_cleartext_def split: option.splits if_splits)

section \<open>Facts about fixed-width records\<close>

lemma concat_records_prefix:
  "concat (map (\<lambda>i. take n (drop (i * n) buf)) [0 ..< k]) = take (k * n) buf"
proof (induction k)
  case 0
  show ?case by simp
next
  case (Suc k)
  have "take (k * n + n) buf = take (k * n) buf @ take n (drop (k * n) buf)"
    by (rule take_add)
  moreover have "Suc k * n = k * n + n"
    by simp
  ultimately have "take (Suc k * n) buf = take (k * n) buf @ take n (drop (k * n) buf)"
    by (simp only:)
  with Suc show ?case
    by (simp only: upt_Suc_append [OF le0] map_append concat_append list.map concat.simps
        append_Nil2)
qed

lemma concat_records:
  assumes "length buf mod n = 0"
  shows "concat (records n buf) = buf"
proof -
  from assms have "length buf div n * n = length buf"
    by (metis add.right_neutral div_mult_mod_eq mult.commute)
  then show ?thesis
    by (simp add: records_def concat_records_prefix)
qed

lemma length_records: "length (records n buf) = length buf div n"
  by (simp add: records_def)

lemma nth_records:
  "i < length buf div n \<Longrightarrow> records n buf ! i = take n (drop (i * n) buf)"
  by (simp add: records_def)

lemma length_nth_records:
  assumes "i < length buf div n"
  shows "length (records n buf ! i) = n"
proof -
  from assms have "Suc i \<le> length buf div n"
    by simp
  then have "Suc i * n \<le> length buf div n * n"
    by (rule mult_le_mono1)
  also have "\<dots> \<le> length buf"
    by (simp add: div_times_less_eq_dividend)
  finally have "i * n + n \<le> length buf"
    by simp
  then show ?thesis
    using assms by (simp add: nth_records)
qed

section \<open>Facts about the written layout\<close>

lemma cat16_bytes: "cat16 (ucast (drop_bit 8 w)) (ucast w) = w"
  unfolding cat16_def
proof (rule bit_word_eqI)
  fix n assume "n < LENGTH(16)"
  then show "bit (push_bit 8 (ucast (ucast (drop_bit 8 w) :: byte)) OR ucast (ucast w :: byte) :: uint16_t) n
               = bit w n"
    by (cases "n < 8") (auto simp add: bit_simps not_less)
qed

lemma cat32_bytes:
  "cat32 (ucast (drop_bit 24 w)) (ucast (drop_bit 16 w)) (ucast (drop_bit 8 w)) (ucast w) = w"
  unfolding cat32_def
proof (rule bit_word_eqI)
  fix n assume n: "n < LENGTH(32)"
  consider "n < 8" | "8 \<le> n" "n < 16" | "16 \<le> n" "n < 24" | "24 \<le> n"
    by linarith
  then show "bit (push_bit 24 (ucast (ucast (drop_bit 24 w) :: byte))
                  OR push_bit 16 (ucast (ucast (drop_bit 16 w) :: byte))
                  OR push_bit 8 (ucast (ucast (drop_bit 8 w) :: byte))
                  OR ucast (ucast w :: byte) :: uint32_t) n
               = bit w n"
  proof cases
    case 1
    then show ?thesis by (simp add: bit_simps)
  next
    case 2
    then show ?thesis using n by (auto simp add: bit_simps not_less)
  next
    case 3
    then show ?thesis using n by (auto simp add: bit_simps not_less)
  next
    case 4
    then show ?thesis using n by (auto simp add: bit_simps not_less)
  qed
qed

lemma length_u16_bytes: "length (u16_bytes w) = 2"
  by (simp add: u16_bytes_def)

lemma length_u32_bytes: "length (u32_bytes w) = 4"
  by (simp add: u32_bytes_def)

lemma length_len16: "length (len16 n) = 2"
  by (simp add: len16_def length_u16_bytes)

lemma length_fit_tag: "length (fit_tag n tag) = n"
  by (simp add: fit_tag_def)

lemma length_fresh_iv: "length (fresh_iv cp calg rnd) = cipher_iv_length cp calg"
  by (simp add: fresh_iv_def)

lemma be16_at_u16_bytes: "be16_at (xs @ u16_bytes w @ ys) (length xs) = Some (unat w)"
proof -
  have "256 * unat (ucast (drop_bit 8 w) :: byte) + unat (ucast w :: byte) = unat w"
    using unat_cat16 [of "ucast (drop_bit 8 w)" "ucast w"] by (simp add: cat16_bytes)
  then show ?thesis
    by (simp add: be16_at_def u16_bytes_def nth_append)
qed

lemma be16_at_len16:
  "n < 65536 \<Longrightarrow> be16_at (xs @ len16 n @ ys) (length xs) = Some n"
  by (simp add: len16_def be16_at_u16_bytes unat_of_nat)

lemma sequence_number_u32_bytes: "sequence_number e (u32_bytes w @ ys) = Some w"
  by (cases e)
    (simp_all add: sequence_number_def get_uint32_def ntohl_def u32_bytes_def
      cat32_byte0 cat32_byte1 cat32_byte2 cat32_byte3 cat32_bytes)

lemma parse_data_cleartext_u16_bytes:
  "parse_data_cleartext (u16_bytes c @ payload) = Inr (c, payload)"
  by (simp add: parse_data_cleartext_def u16_bytes_def sizeof_uint16_t_def cat16_bytes)

text \<open>The accessors on a body laid out field by field.\<close>

lemma laid_out_body:
  assumes ivl: "length ivb < 65536" and ctl: "length ct < 65536" and hl: "length tag < 65536"
    and F: "F = u32_bytes seqno @ len16 (length ivb) @ ivb @ len16 (length ct) @ ct
                  @ len16 (length tag) @ tag"
  shows "sequence_number e F = Some seqno"
    and "iv_size e F = Some (length ivb)"
    and "ciphertext_size e F = Some (length ct)"
    and "hmac_size e F = Some (length tag)"
    and "length F = 10 + length ivb + length ct + length tag"
    and "field_bytes F (Some (iv F)) (iv_size e F) = Some ivb"
    and "field_bytes F (ciphertext e F) (ciphertext_size e F) = Some ct"
    and "field_bytes F (hmac e F) (hmac_size e F) = Some tag"
    and "message_sealed_region e F = Some (sealed_region ivb ct)"
proof -
  show sn: "sequence_number e F = Some seqno"
    unfolding F by (rule sequence_number_u32_bytes)
  have "be16_at F (length (u32_bytes seqno)) = Some (length ivb)"
    unfolding F using ivl by (rule be16_at_len16)
  then show i: "iv_size e F = Some (length ivb)"
    by (simp add: iv_size_be length_u32_bytes)
  have F2: "F = (u32_bytes seqno @ len16 (length ivb) @ ivb) @ len16 (length ct) @ (ct
                  @ len16 (length tag) @ tag)"
    unfolding F by simp
  have "be16_at F (length (u32_bytes seqno @ len16 (length ivb) @ ivb)) = Some (length ct)"
    unfolding F2 using ctl by (rule be16_at_len16)
  then show c: "ciphertext_size e F = Some (length ct)"
    by (simp add: ciphertext_size_be i length_u32_bytes length_len16)
  have F3: "F = (u32_bytes seqno @ len16 (length ivb) @ ivb @ len16 (length ct) @ ct)
                  @ len16 (length tag) @ tag"
    unfolding F by simp
  have "be16_at F (length (u32_bytes seqno @ len16 (length ivb) @ ivb @ len16 (length ct) @ ct))
          = Some (length tag)"
    unfolding F3 using hl by (rule be16_at_len16)
  then show h: "hmac_size e F = Some (length tag)"
    by (simp add: hmac_size_be i c length_u32_bytes length_len16 add.assoc)
  show len: "length F = 10 + length ivb + length ct + length tag"
    unfolding F by (simp add: length_u32_bytes length_len16)
  have io: "iv F = 6"
    by (simp add: iv_def sizeof_uint16_t_def sizeof_sequence_number_type_def)
  have co: "ciphertext e F = Some (8 + length ivb)"
    using i by (simp add: ciphertext_def sizeof_uint16_t_def sizeof_sequence_number_type_def)
  have ho: "hmac e F = Some (10 + length ivb + length ct)"
    using i c by (simp add: hmac_def sizeof_uint16_t_def sizeof_sequence_number_type_def)
  have t1: "take (length ivb) (drop 6 F) = ivb"
    unfolding F by (simp add: length_u32_bytes length_len16)
  have t2: "take (length ct) (drop (8 + length ivb) F) = ct"
    unfolding F by (simp add: length_u32_bytes length_len16)
  have t3: "take (length tag) (drop (10 + length ivb + length ct) F) = tag"
    unfolding F by (simp add: length_u32_bytes length_len16)
  have F4: "F = u32_bytes seqno @ sealed_region ivb ct @ len16 (length tag) @ tag"
    unfolding F by (simp add: sealed_region_def)
  have t4: "take (length (sealed_region ivb ct)) (drop 4 F) = sealed_region ivb ct"
    unfolding F4 by (simp add: length_u32_bytes)
  have ls: "sizeof_uint16_t + length ivb + sizeof_uint16_t + length ct
              = length (sealed_region ivb ct)"
    by (simp add: sealed_region_def length_len16 sizeof_uint16_t_def)
  have lr: "4 + length (sealed_region ivb ct) \<le> length F"
    unfolding F4 by (simp add: length_u32_bytes)
  show "field_bytes F (Some (iv F)) (iv_size e F) = Some ivb"
    by (simp add: field_bytes_def i io len t1)
  show "field_bytes F (ciphertext e F) (ciphertext_size e F) = Some ct"
    by (simp add: field_bytes_def c co len t2)
  show "field_bytes F (hmac e F) (hmac_size e F) = Some tag"
    by (simp add: field_bytes_def h ho len t3)
  show "message_sealed_region e F = Some (sealed_region ivb ct)"
    unfolding message_sealed_region_def i c option.case ls
    by (simp add: field_bytes_def sizeof_sequence_number_type_def lr t4)
qed


lemma seal_layout:
  "seal cp md hmac_len seal_key region
     = len16 (length (seal_tag cp md hmac_len seal_key region))
       @ seal_tag cp md hmac_len seal_key region"
  by (cases md) (simp_all add: seal_def seal_tag_def length_fit_tag)

lemma length_seal_tag:
  "length (seal_tag cp md hmac_len seal_key region)
     = (case md of None \<Rightarrow> 0 | Some alg \<Rightarrow> hmac_len)"
  by (cases md) (simp_all add: seal_tag_def length_fit_tag)

lemma raw_write_Some:
  assumes "raw_write cp (Some cap) seqno calg md hmac_len pt seal_key enc_key rnd = Inr (n, frame)"
  shows "\<exists>ct. cipher_encrypt cp calg enc_key (fresh_iv cp calg rnd) pt = Some ct
           \<and> frame = u32_bytes seqno @ sealed_region (fresh_iv cp calg rnd) ct
                       @ seal cp md hmac_len seal_key (sealed_region (fresh_iv cp calg rnd) ct)
           \<and> n = length frame \<and> n \<le> cap"
  using assms
  by (auto simp add: raw_write_def Let_def split: if_splits option.splits)

section \<open>Facts about seal verification\<close>

text \<open>
  With a digest, \<^verbatim>\<open>check_seal\<close> passes exactly when the recomputed tag, fitted to the
  requested size, is the stored hmac; a frame that differs from a passing one only in its
  stored hmac bytes fails with the authentication error. Whether a change of the iv, of the
  ciphertext or of the key changes the recomputed tag is a property of the keyed digest.
\<close>

lemma check_seal_present_iff:
  "check_seal cp e m allow_unauthenticated (Some alg) hmac_len seal_key = Inr () \<longleftrightarrow>
     (\<exists>region stored.
        message_sealed_region e m = Some region
      \<and> field_bytes m (hmac e m) (hmac_size e m) = Some stored
      \<and> fit_tag hmac_len (hmac_compute cp alg seal_key region) = stored)"
  by (auto simp add: check_seal_def split: option.splits)

lemma check_seal_mismatch:
  "message_sealed_region e m = Some region \<Longrightarrow>
   field_bytes m (hmac e m) (hmac_size e m) = Some stored \<Longrightarrow>
   fit_tag hmac_len (hmac_compute cp alg seal_key region) \<noteq> stored \<Longrightarrow>
   check_seal cp e m allow_unauthenticated (Some alg) hmac_len seal_key = Inl AuthenticationError"
  by (simp add: check_seal_def)

lemma check_seal_stored_hmac_changed:
  assumes "check_seal cp e m allow_unauthenticated (Some alg) hmac_len seal_key = Inr ()"
    and "message_sealed_region e m' = message_sealed_region e m"
    and "field_bytes m (hmac e m) (hmac_size e m) = Some stored"
    and "field_bytes m' (hmac e m') (hmac_size e m') = Some stored'"
    and "stored' \<noteq> stored"
  shows "check_seal cp e m' allow_unauthenticated (Some alg) hmac_len seal_key
           = Inl AuthenticationError"
  using assms by (auto simp add: check_seal_def split: option.splits if_splits)

section \<open>Construction of short bodies\<close>

lemmas accessor_eval =
  data_message_def check_format_def field_fits_def MIN_BODY_LENGTH_def sizeof_uint16_t_def
  sizeof_sequence_number_type_def iv_def iv_size_be ciphertext_size_be hmac_size_be
  ciphertext_def hmac_def be16_at_def be32_at_def


section \<open>The minimum body length\<close>

text \<open>
  C2. The constant \<^verbatim>\<open>MIN_BODY_LENGTH\<close> of the header evaluates to 8: the sequence
  number and two of the three 16-bit length fields, where the layout read by the accessors
  has three and needs 10 bytes. A body of eight zero bytes is not shorter than the
  constant; its iv and its ciphertext are empty, and \<^verbatim>\<open>hmac_size()\<close> loads the
  bytes 8 and 9, which the body does not have.
\<close>

theorem min_body_length_omits_hmac_length_field:
  "MIN_BODY_LENGTH = 8
   \<and> sizeof_sequence_number_type + 3 * sizeof_uint16_t = 10
   \<and> length zero_body_8 = 8
   \<and> \<not> length zero_body_8 < MIN_BODY_LENGTH
   \<and> iv_size LittleEndian zero_body_8 = Some 0
   \<and> ciphertext_size LittleEndian zero_body_8 = Some 0
   \<and> hmac_size LittleEndian zero_body_8 = None"
  by (simp add: accessor_eval zero_body_8_def)

section \<open>The wire layout read by the accessors\<close>

text \<open>
  C3. The accessors read the wire layout with chained offsets, on every buffer and so on
  every successfully constructed \<^verbatim>\<open>data_message\<close>: \<^verbatim>\<open>sequence_number()\<close> is the big-endian 4-byte integer
  at offset 0, \<^verbatim>\<open>iv_size()\<close> the big-endian 2-byte integer at offset 4,
  \<^verbatim>\<open>iv()\<close> starts at offset 6, \<^verbatim>\<open>ciphertext_size()\<close> is the big-endian 2-byte
  integer at offset 6 + iv_size(), \<^verbatim>\<open>ciphertext()\<close> starts at offset 8 + iv_size(),
  \<^verbatim>\<open>hmac_size()\<close> is the big-endian 2-byte integer at offset
  8 + iv_size() + ciphertext_size(), and \<^verbatim>\<open>hmac()\<close> starts at offset
  10 + iv_size() + ciphertext_size(); on a host of either byte order. An accessor and the
  integer at its offset are undefined together, when the bytes at the offset are not in the
  buffer; on a successfully constructed \<^verbatim>\<open>data_message\<close> all of them are defined.
\<close>

theorem accessors_wire_layout:
  "map_option unat (sequence_number e m) = be32_at m 0
   \<and> iv_size e m = be16_at m 4
   \<and> iv m = 6
   \<and> ciphertext_size e m
       = (case iv_size e m of None \<Rightarrow> None | Some ivl \<Rightarrow> be16_at m (6 + ivl))
   \<and> ciphertext e m = (case iv_size e m of None \<Rightarrow> None | Some ivl \<Rightarrow> Some (8 + ivl))
   \<and> hmac_size e m
       = (case iv_size e m of
            None \<Rightarrow> None
          | Some ivl \<Rightarrow>
              (case ciphertext_size e m of
                 None \<Rightarrow> None
               | Some ctl \<Rightarrow> be16_at m (8 + ivl + ctl)))
   \<and> hmac e m
       = (case iv_size e m of
            None \<Rightarrow> None
          | Some ivl \<Rightarrow>
              (case ciphertext_size e m of
                 None \<Rightarrow> None
               | Some ctl \<Rightarrow> Some (10 + ivl + ctl)))
   \<and> (data_message e buf = Inr m \<longrightarrow>
        (\<exists>sn ivl ctl hml.
            be32_at m 0 = Some sn
          \<and> iv_size e m = Some ivl \<and> be16_at m 4 = Some ivl
          \<and> ciphertext_size e m = Some ctl \<and> be16_at m (6 + ivl) = Some ctl
          \<and> ciphertext e m = Some (8 + ivl)
          \<and> hmac_size e m = Some hml \<and> be16_at m (8 + ivl + ctl) = Some hml
          \<and> hmac e m = Some (10 + ivl + ctl)))"
proof -
  have o1: "iv m = 6"
    by (simp add: iv_def sizeof_uint16_t_def sizeof_sequence_number_type_def)
  have o2: "ciphertext e m = (case iv_size e m of None \<Rightarrow> None | Some ivl \<Rightarrow> Some (8 + ivl))"
    by (simp add: ciphertext_def sizeof_uint16_t_def sizeof_sequence_number_type_def
        split: option.splits)
  have o3: "hmac e m
       = (case iv_size e m of
            None \<Rightarrow> None
          | Some ivl \<Rightarrow>
              (case ciphertext_size e m of
                 None \<Rightarrow> None
               | Some ctl \<Rightarrow> Some (10 + ivl + ctl)))"
    by (simp add: hmac_def sizeof_uint16_t_def sizeof_sequence_number_type_def
        split: option.splits)
  have constructed:
    "data_message e buf = Inr m \<longrightarrow>
        (\<exists>sn ivl ctl hml.
            be32_at m 0 = Some sn
          \<and> iv_size e m = Some ivl \<and> be16_at m 4 = Some ivl
          \<and> ciphertext_size e m = Some ctl \<and> be16_at m (6 + ivl) = Some ctl
          \<and> ciphertext e m = Some (8 + ivl)
          \<and> hmac_size e m = Some hml \<and> be16_at m (8 + ivl + ctl) = Some hml
          \<and> hmac e m = Some (10 + ivl + ctl))"
  proof
    assume "data_message e buf = Inr m"
    then have ok: "check_format e m = Inr ()"
      by (simp add: data_message_Inr_iff)
    from ok obtain ivl ctl hml where
      len: "MIN_BODY_LENGTH \<le> length m" and
      ivl: "iv_size e m = Some ivl" and
      ctl: "ciphertext_size e m = Some ctl" and
      hml: "hmac_size e m = Some hml"
      unfolding check_format_Inr_iff by blast
    from len obtain sn where seq: "be32_at m 0 = Some sn"
      by (simp add: be32_at_def MIN_BODY_LENGTH_def sizeof_uint16_t_def
          sizeof_sequence_number_type_def)
    have b1: "be16_at m 4 = Some ivl"
      using ivl by (simp add: iv_size_be)
    have b2: "be16_at m (6 + ivl) = Some ctl"
      using ctl ivl by (simp add: ciphertext_size_be)
    have b3: "be16_at m (8 + ivl + ctl) = Some hml"
      using hml ctl ivl by (simp add: hmac_size_be)
    have c2: "ciphertext e m = Some (8 + ivl)"
      using ivl by (simp add: o2)
    have c3: "hmac e m = Some (10 + ivl + ctl)"
      using ivl ctl by (simp add: o3)
    from seq b1 b2 b3 c2 c3 ivl ctl hml
    show "\<exists>sn ivl ctl hml.
            be32_at m 0 = Some sn
          \<and> iv_size e m = Some ivl \<and> be16_at m 4 = Some ivl
          \<and> ciphertext_size e m = Some ctl \<and> be16_at m (6 + ivl) = Some ctl
          \<and> ciphertext e m = Some (8 + ivl)
          \<and> hmac_size e m = Some hml \<and> be16_at m (8 + ivl + ctl) = Some hml
          \<and> hmac e m = Some (10 + ivl + ctl)"
      by blast
  qed
  from sequence_number_be [of e m] iv_size_be [of e m] o1 ciphertext_size_be [of e m] o2
    hmac_size_be [of e m] o3 constructed
  show ?thesis
    by (intro conjI)
qed

lemma sample_frame_ok: "data_message LittleEndian sample_frame = Inr sample_frame"
  by (simp add: accessor_eval sample_frame_def)

theorem accessors_wire_layout_witness:
  "data_message LittleEndian sample_frame = Inr sample_frame
   \<and> map_option unat (sequence_number LittleEndian sample_frame) = Some 258
   \<and> iv_size LittleEndian sample_frame = Some 2
   \<and> iv sample_frame = 6
   \<and> ciphertext_size LittleEndian sample_frame = Some 3
   \<and> ciphertext LittleEndian sample_frame = Some 10
   \<and> hmac_size LittleEndian sample_frame = Some 1
   \<and> hmac LittleEndian sample_frame = Some 15"
proof -
  have c: "data_message LittleEndian sample_frame = Inr sample_frame \<longrightarrow>
        (\<exists>sn ivl ctl hml.
            be32_at sample_frame 0 = Some sn
          \<and> iv_size LittleEndian sample_frame = Some ivl \<and> be16_at sample_frame 4 = Some ivl
          \<and> ciphertext_size LittleEndian sample_frame = Some ctl
          \<and> be16_at sample_frame (6 + ivl) = Some ctl
          \<and> ciphertext LittleEndian sample_frame = Some (8 + ivl)
          \<and> hmac_size LittleEndian sample_frame = Some hml
          \<and> be16_at sample_frame (8 + ivl + ctl) = Some hml
          \<and> hmac LittleEndian sample_frame = Some (10 + ivl + ctl))"
    using accessors_wire_layout [of LittleEndian sample_frame sample_frame]
    by (elim conjE)
  have s: "map_option unat (sequence_number LittleEndian sample_frame) = be32_at sample_frame 0"
    using accessors_wire_layout [of LittleEndian sample_frame sample_frame]
    by (elim conjE)
  have i: "iv sample_frame = 6"
    using accessors_wire_layout [of LittleEndian sample_frame sample_frame]
    by (elim conjE)
  from c sample_frame_ok obtain sn ivl ctl hml where
    v: "be32_at sample_frame 0 = Some sn"
      "iv_size LittleEndian sample_frame = Some ivl" "be16_at sample_frame 4 = Some ivl"
      "ciphertext_size LittleEndian sample_frame = Some ctl"
      "be16_at sample_frame (6 + ivl) = Some ctl"
      "ciphertext LittleEndian sample_frame = Some (8 + ivl)"
      "hmac_size LittleEndian sample_frame = Some hml"
      "be16_at sample_frame (8 + ivl + ctl) = Some hml"
      "hmac LittleEndian sample_frame = Some (10 + ivl + ctl)"
    by blast
  from v(1) have sn: "sn = 258"
    by (simp add: be32_at_def sample_frame_def)
  from v(3) have ivl: "ivl = 2"
    by (simp add: be16_at_def sample_frame_def)
  from v(5) have ctl: "ctl = 3"
    unfolding ivl by (simp add: be16_at_def sample_frame_def)
  from v(8) have hml: "hml = 1"
    unfolding ivl ctl by (simp add: be16_at_def sample_frame_def)
  from sample_frame_ok s i v show ?thesis
    unfolding sn ivl ctl hml by simp
qed

section \<open>The vector overload of \<^verbatim>\<open>get_cleartext\<close>\<close>

text \<open>
  C9. Whenever the vector overload of \<^verbatim>\<open>get_cleartext\<close> returns a vector, it has
  first asked the non-template \<^verbatim>\<open>get_cleartext\<close> with a \<^verbatim>\<open>NULL\<close> buffer for a
  size \<open>n\<close>, then decrypted into a vector of \<open>n\<close> elements and resized it to
  the count of bytes deciphered: the length of the returned vector is that count, the
  count is at most \<open>n\<close>, and the vector holds the deciphered bytes.
\<close>

theorem get_cleartext_vector_length:
  assumes "get_cleartext_vector cp e m calg enc_key = Inr v"
  shows "\<exists>n cnt out.
           get_cleartext cp e m None calg enc_key = Inr (n, [])
         \<and> get_cleartext cp e m (Some n) calg enc_key = Inr (cnt, out)
         \<and> v = resize cnt (store_front (vector_of_size n) out)
         \<and> length v = cnt \<and> cnt \<le> n \<and> v = out"
proof -
  from assms obtain r1 where
    q: "get_cleartext cp e m None calg enc_key = Inr r1"
    by (auto simp add: get_cleartext_vector_def split: sum.splits)
  from assms q obtain r2 where
    d: "get_cleartext cp e m (Some (fst r1)) calg enc_key = Inr r2" and
    v: "v = resize (fst r2) (store_front (vector_of_size (fst r1)) (snd r2))"
    by (auto simp add: get_cleartext_vector_def Let_def length_vector_of_size split: sum.splits)
  from get_cleartext_query [OF q] have q': "r1 = (fst r1, [])"
    by (cases r1) simp
  from get_cleartext_count [OF d] have c: "fst r2 = length (snd r2)" "fst r2 \<le> fst r1"
    by simp_all
  have d': "get_cleartext cp e m (Some (fst r1)) calg enc_key = Inr (fst r2, snd r2)"
    using d by simp
  have "v = snd r2"
    using v c resize_store_front [of "snd r2" "vector_of_size (fst r1)"]
    by (simp add: length_vector_of_size)
  moreover have "length v = fst r2"
    using v by (simp add: length_resize)
  ultimately show ?thesis
    using q q' d' v c by metis
qed

lemma sample_get_cleartext_vector:
  "get_cleartext_vector sample_provider LittleEndian sample_frame 0 [1] = Inr [0, 1, 2]"
  by (simp add: get_cleartext_vector_def get_cleartext_def field_bytes_def accessor_eval
      sample_frame_def sample_provider_def vector_of_size_def resize_def store_front_def)

lemma sample_get_cleartext_query:
  "get_cleartext sample_provider LittleEndian sample_frame None 0 [1] = Inr (7, [])"
  by (simp add: get_cleartext_def field_bytes_def accessor_eval sample_frame_def
      sample_provider_def)

lemma sample_get_cleartext_decrypt:
  "get_cleartext sample_provider LittleEndian sample_frame (Some 7) 0 [1] = Inr (3, [0, 1, 2])"
  by (simp add: get_cleartext_def field_bytes_def accessor_eval sample_frame_def
      sample_provider_def)

theorem get_cleartext_vector_length_witness:
  "get_cleartext_vector sample_provider LittleEndian sample_frame 0 [1] = Inr [0, 1, 2]
   \<and> get_cleartext sample_provider LittleEndian sample_frame None 0 [1] = Inr (7, [])
   \<and> get_cleartext sample_provider LittleEndian sample_frame (Some 7) 0 [1] = Inr (3, [0, 1, 2])
   \<and> (\<exists>n cnt out.
         get_cleartext sample_provider LittleEndian sample_frame None 0 [1] = Inr (n, [])
       \<and> get_cleartext sample_provider LittleEndian sample_frame (Some n) 0 [1] = Inr (cnt, out)
       \<and> length [0, 1, 2 :: byte] = cnt \<and> cnt \<le> n \<and> [0, 1, 2] = out)"
  using get_cleartext_vector_length [OF sample_get_cleartext_vector]
    sample_get_cleartext_vector sample_get_cleartext_query sample_get_cleartext_decrypt
  by blast

section \<open>The vector overload of \<^verbatim>\<open>pbkdf2\<close>\<close>

text \<open>
  C10. The vector returned by the vector overload of \<^verbatim>\<open>pbkdf2\<close> has the length
  \<^verbatim>\<open>message_digest_size(md)\<close>, whatever byte count the underlying \<^verbatim>\<open>pbkdf2\<close>
  reports and whatever it writes: the vector is sized once and not resized. The overload
  returns a vector whenever the underlying call returns, and fails as the underlying call
  fails.
\<close>

theorem pbkdf2_vector_length:
  "(\<forall>v. pbkdf2_vector message_digest_size pbkdf2_raw password salt md iter = Inr v
         \<longrightarrow> length v = message_digest_size md)
   \<and> (\<forall>cnt out. pbkdf2_raw password salt (message_digest_size md) md iter = Inr (cnt, out)
         \<longrightarrow> (\<exists>v. pbkdf2_vector message_digest_size pbkdf2_raw password salt md iter = Inr v
                  \<and> length v = message_digest_size md))
   \<and> (\<forall>err. pbkdf2_raw password salt (message_digest_size md) md iter = Inl err
         \<longrightarrow> pbkdf2_vector message_digest_size pbkdf2_raw password salt md iter = Inl err)"
  by (auto simp add: pbkdf2_vector_def Let_def length_store_front length_vector_of_size
      split: sum.splits)

theorem pbkdf2_vector_length_witness:
  "pbkdf2_vector (\<lambda>md :: nat. 4) (\<lambda>password salt outbuflen md iter. Inr (2, [9, 8])) [1] [2] 0 1000
     = Inr [9, 8, 0, 0]
   \<and> length [9, 8, 0, 0 :: byte] = 4"
  using pbkdf2_vector_length [of "\<lambda>md :: nat. 4"
      "\<lambda>password salt outbuflen md iter. Inr (2, [9, 8])" "[1]" "[2]" 0 1000]
  by (simp add: pbkdf2_vector_def vector_of_size_def store_front_def eval_nat_numeral)

section \<open>Aligned records of the auxiliary payloads\<close>

text \<open>
  C7. \<^verbatim>\<open>parse_hash_list\<close> succeeds exactly when the length of the buffer is a multiple
  of the digest size, 32; it then returns length / 32 digests, which are the consecutive
  32-byte pieces of the buffer in buffer order; any remainder is the malformed-auxiliary-data
  error. A buffer of 50 bytes fails and a buffer of 64 bytes yields exactly two digests.
  \<^verbatim>\<open>parse_contact_map\<close> succeeds exactly when the length is a multiple of the size of
  a (digest, endpoint) record, and fails with the same error otherwise.
\<close>

theorem parse_aligned_records:
  "HASH_SIZE = 32
   \<and> ((\<exists>hs. parse_hash_list buf = Inr hs) \<longleftrightarrow> length buf mod HASH_SIZE = 0)
   \<and> (length buf mod HASH_SIZE \<noteq> 0 \<longrightarrow> parse_hash_list buf = Inl MalformedAuxData)
   \<and> (\<forall>hs. parse_hash_list buf = Inr hs \<longrightarrow>
          length hs = length buf div HASH_SIZE \<and> concat hs = buf
        \<and> (\<forall>i < length hs.
              hs ! i = take HASH_SIZE (drop (i * HASH_SIZE) buf)
            \<and> length (hs ! i) = HASH_SIZE))
   \<and> (length buf = 50 \<longrightarrow> parse_hash_list buf = Inl MalformedAuxData)
   \<and> (length buf = 64 \<longrightarrow> (\<exists>h1 h2. parse_hash_list buf = Inr [h1, h2]))
   \<and> ((\<exists>cm. parse_contact_map endpoint_size buf = Inr cm)
        \<longleftrightarrow> length buf mod (HASH_SIZE + endpoint_size) = 0)
   \<and> (length buf mod (HASH_SIZE + endpoint_size) \<noteq> 0
        \<longrightarrow> parse_contact_map endpoint_size buf = Inl MalformedAuxData)"
proof -
  have size: "HASH_SIZE = 32"
    by (simp add: HASH_SIZE_def)
  have iff: "(\<exists>hs. parse_hash_list buf = Inr hs) \<longleftrightarrow> length buf mod HASH_SIZE = 0"
    by (simp add: parse_hash_list_def)
  have bad: "length buf mod HASH_SIZE \<noteq> 0 \<longrightarrow> parse_hash_list buf = Inl MalformedAuxData"
    by (simp add: parse_hash_list_def)
  have good:
    "\<forall>hs. parse_hash_list buf = Inr hs \<longrightarrow>
          length hs = length buf div HASH_SIZE \<and> concat hs = buf
        \<and> (\<forall>i < length hs.
              hs ! i = take HASH_SIZE (drop (i * HASH_SIZE) buf)
            \<and> length (hs ! i) = HASH_SIZE)"
  proof (intro allI impI)
    fix hs
    assume "parse_hash_list buf = Inr hs"
    then have m: "length buf mod HASH_SIZE = 0" and hs: "hs = records HASH_SIZE buf"
      by (auto simp add: parse_hash_list_def split: if_splits)
    have 1: "length hs = length buf div HASH_SIZE"
      unfolding hs by (rule length_records)
    have 2: "concat hs = buf"
      unfolding hs by (rule concat_records [OF m])
    have 3: "hs ! i = take HASH_SIZE (drop (i * HASH_SIZE) buf)" if "i < length hs" for i
      using that unfolding 1 unfolding hs by (rule nth_records)
    have 4: "length (hs ! i) = HASH_SIZE" if "i < length hs" for i
      using that unfolding 1 unfolding hs by (rule length_nth_records)
    from 1 2 3 4
    show "length hs = length buf div HASH_SIZE \<and> concat hs = buf
        \<and> (\<forall>i < length hs.
              hs ! i = take HASH_SIZE (drop (i * HASH_SIZE) buf)
            \<and> length (hs ! i) = HASH_SIZE)"
      by blast
  qed
  have fifty: "length buf = 50 \<longrightarrow> parse_hash_list buf = Inl MalformedAuxData"
    by (simp add: parse_hash_list_def HASH_SIZE_def)
  have sixty_four: "length buf = 64 \<longrightarrow> (\<exists>h1 h2. parse_hash_list buf = Inr [h1, h2])"
  proof
    assume l: "length buf = 64"
    then have p: "parse_hash_list buf = Inr (records HASH_SIZE buf)"
      by (simp add: parse_hash_list_def HASH_SIZE_def)
    from l have "length (records HASH_SIZE buf) = Suc (Suc 0)"
      by (simp add: HASH_SIZE_def length_records)
    then obtain h1 h2 where "records HASH_SIZE buf = [h1, h2]"
      by (auto simp add: length_Suc_conv)
    with p show "\<exists>h1 h2. parse_hash_list buf = Inr [h1, h2]"
      by simp
  qed
  have ciff: "(\<exists>cm. parse_contact_map endpoint_size buf = Inr cm)
                \<longleftrightarrow> length buf mod (HASH_SIZE + endpoint_size) = 0"
    by (simp add: parse_contact_map_def)
  have cbad: "length buf mod (HASH_SIZE + endpoint_size) \<noteq> 0
                \<longrightarrow> parse_contact_map endpoint_size buf = Inl MalformedAuxData"
    by (simp add: parse_contact_map_def)
  from size iff bad good fifty sixty_four ciff cbad show ?thesis
    by (intro conjI)
qed

theorem parse_aligned_records_witness:
  "length sample_aux_50 = 50 \<and> length sample_aux_50 mod HASH_SIZE \<noteq> 0
   \<and> parse_hash_list sample_aux_50 = Inl MalformedAuxData
   \<and> length sample_aux_64 = 64 \<and> length sample_aux_64 mod HASH_SIZE = 0
   \<and> (\<exists>h1 h2. parse_hash_list sample_aux_64 = Inr [h1, h2]
         \<and> h1 = take 32 sample_aux_64 \<and> h2 = take 32 (drop 32 sample_aux_64)
         \<and> h1 @ h2 = sample_aux_64)
   \<and> length sample_aux_50 mod (HASH_SIZE + 18) = 0
   \<and> (\<exists>cm. parse_contact_map 18 sample_aux_50 = Inr cm)
   \<and> length sample_aux_64 mod (HASH_SIZE + 18) \<noteq> 0
   \<and> parse_contact_map 18 sample_aux_64 = Inl MalformedAuxData"
proof -
  have l50: "length sample_aux_50 = 50" and l64: "length sample_aux_64 = 64"
    by (simp_all add: sample_aux_50_def sample_aux_64_def)
  have m: "length sample_aux_50 mod HASH_SIZE \<noteq> 0" "length sample_aux_64 mod HASH_SIZE = 0"
    "length sample_aux_50 mod (HASH_SIZE + 18) = 0"
    "length sample_aux_64 mod (HASH_SIZE + 18) \<noteq> 0"
    by (simp_all add: l50 l64 HASH_SIZE_def)
  have a: "length sample_aux_64 = 64 \<longrightarrow> (\<exists>h1 h2. parse_hash_list sample_aux_64 = Inr [h1, h2])"
    using parse_aligned_records [of sample_aux_64 18] by (elim conjE)
  with l64 obtain h1 h2 where h: "parse_hash_list sample_aux_64 = Inr [h1, h2]"
    by blast
  have b: "\<forall>hs. parse_hash_list sample_aux_64 = Inr hs \<longrightarrow>
          length hs = length sample_aux_64 div HASH_SIZE \<and> concat hs = sample_aux_64
        \<and> (\<forall>i < length hs.
              hs ! i = take HASH_SIZE (drop (i * HASH_SIZE) sample_aux_64)
            \<and> length (hs ! i) = HASH_SIZE)"
    using parse_aligned_records [of sample_aux_64 18] by (elim conjE)
  from b h have c: "concat [h1, h2] = sample_aux_64"
    and n: "\<forall>i < length [h1, h2].
              [h1, h2] ! i = take HASH_SIZE (drop (i * HASH_SIZE) sample_aux_64)"
    by blast+
  from n [rule_format, of 0] n [rule_format, of 1]
  have h12: "h1 = take 32 sample_aux_64" "h2 = take 32 (drop 32 sample_aux_64)"
    by (simp_all add: HASH_SIZE_def)
  from c have cc: "h1 @ h2 = sample_aux_64"
    by simp
  have d: "length sample_aux_50 mod HASH_SIZE \<noteq> 0
             \<longrightarrow> parse_hash_list sample_aux_50 = Inl MalformedAuxData"
    using parse_aligned_records [of sample_aux_50 18] by (elim conjE)
  have e: "(\<exists>cm. parse_contact_map 18 sample_aux_50 = Inr cm)
             \<longleftrightarrow> length sample_aux_50 mod (HASH_SIZE + 18) = 0"
    using parse_aligned_records [of sample_aux_50 18] by (elim conjE)
  have f: "length sample_aux_64 mod (HASH_SIZE + 18) \<noteq> 0
             \<longrightarrow> parse_contact_map 18 sample_aux_64 = Inl MalformedAuxData"
    using parse_aligned_records [of sample_aux_64 18] by (elim conjE)
  from m d e f have r: "parse_hash_list sample_aux_50 = Inl MalformedAuxData"
    "\<exists>cm. parse_contact_map 18 sample_aux_50 = Inr cm"
    "parse_contact_map 18 sample_aux_64 = Inl MalformedAuxData"
    by simp_all
  from h h12 cc
  have x: "\<exists>h1 h2. parse_hash_list sample_aux_64 = Inr [h1, h2]
         \<and> h1 = take 32 sample_aux_64 \<and> h2 = take 32 (drop 32 sample_aux_64)
         \<and> h1 @ h2 = sample_aux_64"
    by blast
  from l50 l64 m r x show ?thesis
    by (intro conjI)
qed

section \<open>The digest fallback of \<^verbatim>\<open>pbkdf2\<close>\<close>

text \<open>
  C8. When the requested digest is not available, \<^verbatim>\<open>pbkdf2\<close> fails with the
  algorithm-unavailable error if the strict-mode flag \<^verbatim>\<open>NO_PBKDF2_FALLBACK\<close> is set, and
  derives with SHA1 if it is not set. An available digest is used as requested. A digest
  other than the requested one is used only when it is SHA1, the flag is not set and the
  requested digest is not available.
\<close>

theorem pbkdf2_fallback_policy:
  "(\<not> available md \<and> NO_PBKDF2_FALLBACK \<longrightarrow>
      pbkdf2_digest NO_PBKDF2_FALLBACK available sha1 md = Inl AlgorithmUnavailable
    \<and> pbkdf2 NO_PBKDF2_FALLBACK available sha1 derive password salt outbuflen md iter
        = Inl AlgorithmUnavailable)
   \<and> (\<not> available md \<and> \<not> NO_PBKDF2_FALLBACK \<longrightarrow>
      pbkdf2_digest NO_PBKDF2_FALLBACK available sha1 md = Inr sha1
    \<and> pbkdf2 NO_PBKDF2_FALLBACK available sha1 derive password salt outbuflen md iter
        = Inr (outbuflen, take outbuflen (derive sha1 password salt iter outbuflen)))
   \<and> (available md \<longrightarrow>
      pbkdf2_digest NO_PBKDF2_FALLBACK available sha1 md = Inr md
    \<and> pbkdf2 NO_PBKDF2_FALLBACK available sha1 derive password salt outbuflen md iter
        = Inr (outbuflen, take outbuflen (derive md password salt iter outbuflen)))
   \<and> (\<forall>used. pbkdf2_digest NO_PBKDF2_FALLBACK available sha1 md = Inr used \<and> used \<noteq> md
        \<longrightarrow> used = sha1 \<and> \<not> NO_PBKDF2_FALLBACK \<and> \<not> available md)"
  by (simp add: pbkdf2_def pbkdf2_digest_def)

theorem pbkdf2_fallback_policy_witness:
  "\<not> (\<lambda>md :: nat. md = 1) 256
   \<and> pbkdf2 True (\<lambda>md. md = 1) 1 sample_derive [1, 2] [3] 2 256 1000 = Inl AlgorithmUnavailable
   \<and> pbkdf2_digest False (\<lambda>md :: nat. md = 1) 1 256 = Inr 1
   \<and> pbkdf2 False (\<lambda>md. md = 1) 1 sample_derive [1, 2] [3] 2 256 1000 = Inr (2, [2, 3])
   \<and> pbkdf2 True (\<lambda>md. md = 1) 1 sample_derive [1, 2] [3] 2 1 1000 = Inr (2, [2, 3])"
proof -
  have strict:
    "\<not> (\<lambda>md :: nat. md = 1) 256 \<and> True \<longrightarrow>
       pbkdf2_digest True (\<lambda>md :: nat. md = 1) 1 256 = Inl AlgorithmUnavailable
     \<and> pbkdf2 True (\<lambda>md. md = 1) 1 sample_derive [1, 2] [3] 2 256 1000
         = Inl AlgorithmUnavailable"
    using pbkdf2_fallback_policy
      [of "\<lambda>md. md = 1" 256 True 1 sample_derive "[1, 2]" "[3]" 2 1000]
    by (elim conjE)
  have lax:
    "\<not> (\<lambda>md :: nat. md = 1) 256 \<and> \<not> False \<longrightarrow>
       pbkdf2_digest False (\<lambda>md :: nat. md = 1) 1 256 = Inr 1
     \<and> pbkdf2 False (\<lambda>md. md = 1) 1 sample_derive [1, 2] [3] 2 256 1000
         = Inr (2, take 2 (sample_derive 1 [1, 2] [3] 1000 2))"
    using pbkdf2_fallback_policy
      [of "\<lambda>md. md = 1" 256 False 1 sample_derive "[1, 2]" "[3]" 2 1000]
    by (elim conjE)
  have provided:
    "(\<lambda>md :: nat. md = 1) 1 \<longrightarrow>
       pbkdf2_digest True (\<lambda>md :: nat. md = 1) 1 1 = Inr 1
     \<and> pbkdf2 True (\<lambda>md. md = 1) 1 sample_derive [1, 2] [3] 2 1 1000
         = Inr (2, take 2 (sample_derive 1 [1, 2] [3] 1000 2))"
    using pbkdf2_fallback_policy
      [of "\<lambda>md. md = 1" 1 True 1 sample_derive "[1, 2]" "[3]" 2 1000]
    by (elim conjE)
  have d: "take 2 (sample_derive 1 [1, 2] [3] 1000 2) = [2, 3]"
    by (simp add: sample_derive_def)
  from strict lax provided show ?thesis
    unfolding d by simp
qed

section \<open>Round trip of writing and parsing\<close>

text \<open>
  C5. Whenever \<^verbatim>\<open>write\<close> succeeds on a channel number, a sequence number, a payload,
  algorithms and keys, and the cipher decrypts what it encrypted, with an iv, a ciphertext
  and an hmac whose lengths fit their 16-bit length fields, then a \<^verbatim>\<open>data_message\<close>
  constructed from the written bytes exists, its \<^verbatim>\<open>sequence_number()\<close> is the
  sequence number written, \<^verbatim>\<open>check_seal\<close> with the same digest, hmac size and seal key
  passes, and \<^verbatim>\<open>get_cleartext\<close> with the same cipher and encryption key, into any
  buffer that is large enough, returns the cleartext that splits into the channel number
  and the payload written. Without a digest the seal check passes when the caller allows
  unauthenticated frames.
\<close>

theorem write_parse_roundtrip:
  assumes wr: "write_data_message cp (Some cap) channel_number seqno calg md hmac_len cleartext
                 seal_key enc_key rnd = Inr (n, frame)"
    and cipher: "\<And>ct. cipher_encrypt cp calg enc_key (fresh_iv cp calg rnd)
                        (u16_bytes channel_number @ cleartext) = Some ct
                   \<Longrightarrow> cipher_decrypt cp calg enc_key (fresh_iv cp calg rnd) ct
                         = Some (u16_bytes channel_number @ cleartext)
                       \<and> length ct < 65536"
    and iv_fits: "cipher_iv_length cp calg < 65536"
    and hmac_fits: "hmac_len < 65536"
    and policy: "md = None \<Longrightarrow> allow_unauthenticated"
  shows "\<exists>m clear.
           data_message e frame = Inr m
         \<and> sequence_number e m = Some seqno
         \<and> check_seal cp e m allow_unauthenticated md hmac_len seal_key = Inr ()
         \<and> (\<forall>cap'. length clear \<le> cap' \<longrightarrow>
                get_cleartext cp e m (Some cap') calg enc_key = Inr (length clear, clear))
         \<and> parse_data_cleartext clear = Inr (channel_number, cleartext)"
proof -
  define ivb where "ivb = fresh_iv cp calg rnd"
  define pt where "pt = u16_bytes channel_number @ cleartext"
  from wr obtain ct where
    enc: "cipher_encrypt cp calg enc_key ivb pt = Some ct" and
    frame: "frame = u32_bytes seqno @ sealed_region ivb ct
                      @ seal cp md hmac_len seal_key (sealed_region ivb ct)"
    unfolding write_data_message_def ivb_def pt_def
    by (blast dest: raw_write_Some)
  from cipher [of ct] enc have
    dec: "cipher_decrypt cp calg enc_key ivb ct = Some pt" and ctl: "length ct < 65536"
    by (simp_all add: ivb_def pt_def)
  define tag where "tag = seal_tag cp md hmac_len seal_key (sealed_region ivb ct)"
  have ivl: "length ivb < 65536"
    using iv_fits by (simp add: ivb_def length_fresh_iv)
  have tl: "length tag < 65536"
    using hmac_fits by (simp add: tag_def length_seal_tag split: option.splits)
  have F: "frame = u32_bytes seqno @ len16 (length ivb) @ ivb @ len16 (length ct) @ ct
                     @ len16 (length tag) @ tag"
    unfolding frame seal_layout tag_def [symmetric] by (simp add: sealed_region_def)
  note lay = laid_out_body [OF ivl ctl tl F]
  have "check_format e frame = Inr ()"
    unfolding check_format_Inr_iff
    using lay(2,3,4,5)
    by (simp add: MIN_BODY_LENGTH_def sizeof_uint16_t_def sizeof_sequence_number_type_def)
  then have m: "data_message e frame = Inr frame"
    by (simp add: data_message_Inr_iff)
  have seal_ok: "check_seal cp e frame allow_unauthenticated md hmac_len seal_key = Inr ()"
  proof (cases md)
    case None
    with policy show ?thesis
      by (simp add: check_seal_def)
  next
    case (Some alg)
    then have "tag = fit_tag hmac_len (hmac_compute cp alg seal_key (sealed_region ivb ct))"
      by (simp add: tag_def seal_tag_def)
    with Some show ?thesis
      by (simp add: check_seal_def lay(8,9))
  qed
  have clear: "get_cleartext cp e frame (Some cap') calg enc_key = Inr (length pt, pt)"
    if "length pt \<le> cap'" for cap'
    using that by (simp add: get_cleartext_def lay(6,7) dec)
  have chan: "parse_data_cleartext pt = Inr (channel_number, cleartext)"
    unfolding pt_def by (rule parse_data_cleartext_u16_bytes)
  from m lay(1) seal_ok clear chan show ?thesis
    by blast
qed


lemma sample_fresh_iv: "fresh_iv sample_provider 0 sample_rnd = [10, 11]"
  by (simp add: fresh_iv_def sample_provider_def sample_rnd_def eval_nat_numeral upt_rec)

lemma sample_write:
  "write_data_message sample_provider (Some 64) 7 42 0 (Some 0) 4 [80, 73, 78, 71] [9, 9] [1]
     sample_rnd = Inr (22, sample_written_frame)"
  unfolding write_data_message_def raw_write_def sample_fresh_iv
  by (simp add: sample_provider_def u16_bytes_def u32_bytes_def len16_def sealed_region_def
      seal_def seal_tag_def fit_tag_def sample_written_frame_def)


lemma sample_cipher_inverts:
  "cipher_encrypt sample_provider 0 [1] (fresh_iv sample_provider 0 sample_rnd)
     (u16_bytes 7 @ [80, 73, 78, 71]) = Some ct
   \<Longrightarrow> cipher_decrypt sample_provider 0 [1] (fresh_iv sample_provider 0 sample_rnd) ct
         = Some (u16_bytes 7 @ [80, 73, 78, 71])
       \<and> length ct < 65536"
  by (auto simp add: sample_provider_def u16_bytes_def)

theorem write_parse_roundtrip_witness:
  "write_data_message sample_provider (Some 64) 7 42 0 (Some 0) 4 [80, 73, 78, 71] [9, 9] [1]
     sample_rnd = Inr (22, sample_written_frame)
   \<and> (\<exists>m clear.
          data_message LittleEndian sample_written_frame = Inr m
        \<and> sequence_number LittleEndian m = Some 42
        \<and> check_seal sample_provider LittleEndian m False (Some 0) 4 [9, 9] = Inr ()
        \<and> (\<forall>cap'. length clear \<le> cap' \<longrightarrow>
               get_cleartext sample_provider LittleEndian m (Some cap') 0 [1]
                 = Inr (length clear, clear))
        \<and> parse_data_cleartext clear = Inr (7, [80, 73, 78, 71]))"
proof -
  have iv_fits: "cipher_iv_length sample_provider 0 < 65536"
    by (simp add: sample_provider_def)
  have hmac_fits: "(4 :: nat) < 65536"
    by simp
  have policy: "Some (0 :: nat) = None \<Longrightarrow> False"
    by simp
  from write_parse_roundtrip
    [OF sample_write sample_cipher_inverts iv_fits hmac_fits policy, of LittleEndian]
    sample_write
  show ?thesis
    by blast
qed

section \<open>Size query of the writer\<close>







end
